theory Spec2Isabelle
  imports Complex_Main "HOL-Library.Word"
begin

unbundle bit_operations_syntax

section \<open>Values\<close>

text \<open>
  The stacks of \<^verbatim>\<open>lib/undo-redo-stack.ts\<close> hold values of type \<^verbatim>\<open>any\<close>.  A value is
  either \<^verbatim>\<open>undefined\<close>, which is also what \<^verbatim>\<open>Array.prototype.pop\<close> and
  \<^verbatim>\<open>Array.prototype.at\<close> return on an empty array, or a defined value (the editor
  pushes the strings made by \<^verbatim>\<open>JSON.stringify\<close>).
\<close>

datatype 'a js = Undefined | Val 'a

section \<open>ActionStack\<close>

text \<open>
  The private field \<^verbatim>\<open>state: any[]\<close> is a list whose last element is the top of the
  stack.  Each method is a function of the array's contents; a mutating method returns
  the new contents.
\<close>

definition ActionStack_push :: "'a js list \<Rightarrow> 'a js \<Rightarrow> 'a js list" where
  "ActionStack_push state val = state @ [val]"

text \<open>\<^verbatim>\<open>pop()\<close>: the removed element and the remaining array; \<^verbatim>\<open>undefined\<close> on an empty array.\<close>

definition ActionStack_pop :: "'a js list \<Rightarrow> 'a js \<times> 'a js list" where
  "ActionStack_pop state =
     (if state = [] then (Undefined, []) else (last state, butlast state))"

definition ActionStack_isEmpty :: "'a js list \<Rightarrow> bool" where
  "ActionStack_isEmpty state = (length state < 1)"

text \<open>\<^verbatim>\<open>splice(0)\<close> removes every element from index 0 on.\<close>

definition ActionStack_clear :: "'a js list \<Rightarrow> 'a js list" where
  "ActionStack_clear state = take 0 state"

text \<open>\<^verbatim>\<open>at(-1)\<close>: the last element, \<^verbatim>\<open>undefined\<close> on an empty array.\<close>

definition ActionStack_current :: "'a js list \<Rightarrow> 'a js" where
  "ActionStack_current state = (if state = [] then Undefined else last state)"

definition ActionStack_length :: "'a js list \<Rightarrow> nat" where
  "ActionStack_length state = length state"

section \<open>UndoRedoStack\<close>

record 'a UndoRedoStack =
  undoStack :: "'a js list"
  redoStack :: "'a js list"

text \<open>The constructor's default argument: two new, empty and distinct ActionStacks.\<close>

definition UndoRedoStack_new :: "'a UndoRedoStack" where
  "UndoRedoStack_new = \<lparr>undoStack = [], redoStack = []\<rparr>"

definition UndoRedoStack_push :: "'a UndoRedoStack \<Rightarrow> 'a js \<Rightarrow> 'a UndoRedoStack" where
  "UndoRedoStack_push s val =
     s\<lparr>undoStack := ActionStack_push (undoStack s) val,
       redoStack := ActionStack_clear (redoStack s)\<rparr>"

text \<open>\<^verbatim>\<open>undo()\<close> and \<^verbatim>\<open>redo()\<close>: the returned value and the stack afterwards.\<close>

definition undo :: "'a UndoRedoStack \<Rightarrow> 'a js \<times> 'a UndoRedoStack" where
  "undo s =
     (if ActionStack_length (undoStack s) > 1 then
        (let (opv, u) = ActionStack_pop (undoStack s);
             r = ActionStack_push (redoStack s) opv
         in (ActionStack_current u, s\<lparr>undoStack := u, redoStack := r\<rparr>))
      else (Undefined, s))"

definition redo :: "'a UndoRedoStack \<Rightarrow> 'a js \<times> 'a UndoRedoStack" where
  "redo s =
     (if \<not> ActionStack_isEmpty (redoStack s) then
        (let (opv, r) = ActionStack_pop (redoStack s);
             u = ActionStack_push (undoStack s) opv
         in (opv, s\<lparr>undoStack := u, redoStack := r\<rparr>))
      else (Undefined, s))"

definition UndoRedoStack_clear :: "'a UndoRedoStack \<Rightarrow> 'a UndoRedoStack" where
  "UndoRedoStack_clear s =
     s\<lparr>undoStack := ActionStack_clear (undoStack s),
       redoStack := ActionStack_clear (redoStack s)\<rparr>"

definition latest :: "'a UndoRedoStack \<Rightarrow> 'a js" where
  "latest s = ActionStack_current (undoStack s)"

text \<open>Sequences of calls: the values pushed in order, and \<open>n\<close> calls of one method.\<close>

definition pushAll :: "'a UndoRedoStack \<Rightarrow> 'a js list \<Rightarrow> 'a UndoRedoStack" where
  "pushAll s vals = foldl UndoRedoStack_push s vals"

definition undoN :: "nat \<Rightarrow> 'a UndoRedoStack \<Rightarrow> 'a UndoRedoStack" where
  "undoN n s = ((\<lambda>t. snd (undo t)) ^^ n) s"

definition redoN :: "nat \<Rightarrow> 'a UndoRedoStack \<Rightarrow> 'a UndoRedoStack" where
  "redoN n s = ((\<lambda>t. snd (redo t)) ^^ n) s"

section \<open>ActionStack objects in a store\<close>

text \<open>
  An ActionStack holds a reference to its array, and \<^verbatim>\<open>getValues()\<close> hands a second array
  to the caller.  To speak about who can change which array, arrays live in a store: the
  address of an array is its index in the store, and creating an array appends it.  The
  methods below are the ones above, applied to the array at the stack's address \<open>a\<close>,
  which is an address of the store (\<open>a < length st\<close>).
\<close>

type_synonym 'a store = "'a js list list"

definition ActionStack_pop_at :: "'a store \<Rightarrow> nat \<Rightarrow> 'a js \<times> 'a store" where
  "ActionStack_pop_at st a =
     (let (v, rest) = ActionStack_pop (st ! a) in (v, st[a := rest]))"

definition ActionStack_current_at :: "'a store \<Rightarrow> nat \<Rightarrow> 'a js" where
  "ActionStack_current_at st a = ActionStack_current (st ! a)"

text \<open>
  \<^verbatim>\<open>getValues() { return [...this.state]; }\<close>: the spread creates a new array with the same
  elements; the result is its address and the store that holds it.
\<close>

definition ActionStack_getValues :: "'a store \<Rightarrow> nat \<Rightarrow> nat \<times> 'a store" where
  "ActionStack_getValues st a = (length st, st @ [st ! a])"

text \<open>
  Whatever a caller does to the array at address \<open>b\<close> (assigning an element, \<^verbatim>\<open>push\<close>,
  \<^verbatim>\<open>splice\<close>, \<^verbatim>\<open>sort\<close>, setting \<^verbatim>\<open>length\<close>) replaces the contents at \<open>b\<close> by a function
  \<open>f\<close> of the old contents and touches no other array.
\<close>

definition mutate :: "'a store \<Rightarrow> nat \<Rightarrow> ('a js list \<Rightarrow> 'a js list) \<Rightarrow> 'a store" where
  "mutate st b f = st[b := f (st ! b)]"

section \<open>Content bounds: scanPixels\<close>

text \<open>
  \<^verbatim>\<open>scanPixels\<close> of \<^verbatim>\<open>lib/utils.ts\<close> is local to \<^verbatim>\<open>getRealBBox\<close>; it reads the variables
  \<open>w\<close> and \<open>h\<close> of the enclosing function (the width and height of the decoded image),
  here its first two arguments.  Numbers are integers throughout the scan and are
  modelled as \<open>int\<close>.

  The argument \<^verbatim>\<open>imageData\<close> is the \<^verbatim>\<open>Uint8ClampedArray\<close> of \<^verbatim>\<open>getImageData\<close>: four bytes
  per pixel in the order red, green, blue, alpha, row by row.
\<close>

text \<open>
  \<^verbatim>\<open>new Uint32Array(imageData)\<close>.  A typed array built from another typed array is a copy
  element by element: it has the length of the source, and each element is the source's
  element converted to the new element type.  (A view of the same bytes as 32-bit words
  would be \<^verbatim>\<open>new Uint32Array(imageData.buffer)\<close>, which the code does not write.)
\<close>

definition Uint32Array :: "8 word list \<Rightarrow> 32 word list" where
  "Uint32Array imageData = map ucast imageData"

text \<open>
  The test \<^verbatim>\<open>data[i] & 0xff000000\<close>.  Reading outside the array gives \<^verbatim>\<open>undefined\<close>,
  which \<^verbatim>\<open>&\<close> converts to 0; the test succeeds when the result is not 0.
\<close>

definition alphaTest :: "32 word list \<Rightarrow> int \<Rightarrow> bool" where
  "alphaTest data i =
     (if 0 \<le> i \<and> i < int (length data) then (data ! nat i) AND 0xff000000 \<noteq> 0 else False)"

text \<open>
  The inner loop of the \<open>y1\<close> and \<open>y2\<close> sweeps, from column \<open>x\<close> on: whether it reaches
  the assignment and \<^verbatim>\<open>break\<close>.
\<close>

function rowHit :: "int \<Rightarrow> 32 word list \<Rightarrow> int \<Rightarrow> int \<Rightarrow> bool" where
  "rowHit w data y x =
     (if x < w then
        (if alphaTest data (y * w + x) then True else rowHit w data y (x + 1))
      else False)"
  by pat_completeness auto
termination
  by (relation "measure (\<lambda>(w, data, y, x). nat (w - x))") auto

declare rowHit.simps [simp del]

lemma rowHit_negative_row: "y < 0 \<Longrightarrow> 0 \<le> x \<Longrightarrow> \<not> rowHit w data y x"
proof (induction w data y x rule: rowHit.induct)
  case (1 w data y x)
  show ?case
  proof (cases "x < w")
    case True
    with "1.prems" have "y \<le> - 1" "0 \<le> w" by simp_all
    then have "y * w \<le> - 1 * w" by (rule mult_right_mono)
    with True have no: "\<not> alphaTest data (y * w + x)" by (simp add: alphaTest_def)
    from "1.prems" have "0 \<le> x + 1" by simp
    from "1.IH" [OF True no "1.prems"(1) this] no show ?thesis
      by (simp add: rowHit.simps [of w data y x])
  next
    case False
    then show ?thesis by (simp add: rowHit.simps [of w data y x])
  qed
qed

lemma rowHit_row_nonneg: "rowHit w data y 0 \<Longrightarrow> 0 \<le> y"
  using rowHit_negative_row [of y 0 w data] by (cases "y < 0") simp_all

text \<open>
  The \<open>y1\<close> sweep.  On a hit the code sets \<^verbatim>\<open>y1 = y; y = h; break\<close>, and the outer
  loop's \<^verbatim>\<open>y++\<close> then makes \<open>y = h + 1\<close>.  \<open>None\<close> is \<^verbatim>\<open>undefined\<close>.
\<close>

function y1Loop :: "int \<Rightarrow> int \<Rightarrow> 32 word list \<Rightarrow> int \<Rightarrow> int option \<Rightarrow> int option" where
  "y1Loop w h data y y1 =
     (if y < h then
        (if rowHit w data y 0 then y1Loop w h data (h + 1) (Some y)
         else y1Loop w h data (y + 1) y1)
      else y1)"
  by pat_completeness auto
termination
  by (relation "measure (\<lambda>(w, h, data, y, y1). nat (h - y))") auto

text \<open>
  The \<open>y2\<close> sweep.  On a hit the code sets \<^verbatim>\<open>y2 = y; y = 0; break\<close>, and the outer
  loop's \<^verbatim>\<open>y--\<close> then makes \<open>y = -1\<close>.
\<close>

function y2Loop :: "int \<Rightarrow> int \<Rightarrow> 32 word list \<Rightarrow> int \<Rightarrow> int option \<Rightarrow> int option" where
  "y2Loop w y1 data y y2 =
     (if y > y1 then
        (if rowHit w data y 0 then y2Loop w y1 data (0 - 1) (Some y)
         else y2Loop w y1 data (y - 1) y2)
      else y2)"
  by pat_completeness auto
termination
proof (relation "measure (\<lambda>(w, y1, data, y, y2). nat (y - y1))", goal_cases)
  case 1
  show ?case by simp
next
  case (2 w y1 data y y2)
  from rowHit_row_nonneg [OF 2(2)] have "0 \<le> y" .
  with 2(1) show ?case by simp
next
  case (3 w y1 data y y2)
  then show ?case by simp
qed

text \<open>The \<open>x1\<close> sweep: the inner loop over one row (the new \<open>x1\<close>), and the loop over rows.\<close>

function x1Row :: "int \<Rightarrow> 32 word list \<Rightarrow> int \<Rightarrow> int \<Rightarrow> int \<Rightarrow> int" where
  "x1Row w data y x x1 =
     (if x < w then
        (if x < x1 \<and> alphaTest data (y * w + x) then x else x1Row w data y (x + 1) x1)
      else x1)"
  by pat_completeness auto
termination
  by (relation "measure (\<lambda>(w, data, y, x, x1). nat (w - x))") auto

function x1Loop :: "int \<Rightarrow> int \<Rightarrow> 32 word list \<Rightarrow> int \<Rightarrow> int \<Rightarrow> int" where
  "x1Loop w y2 data y x1 =
     (if y < y2 then x1Loop w y2 data (y + 1) (x1Row w data y 0 x1) else x1)"
  by pat_completeness auto
termination
  by (relation "measure (\<lambda>(w, y2, data, y, x1). nat (y2 - y))") auto

text \<open>The \<open>x2\<close> sweep: columns from \<open>w - 1\<close> down to, and not including, \<open>x1\<close>.\<close>

function x2Row :: "int \<Rightarrow> int \<Rightarrow> 32 word list \<Rightarrow> int \<Rightarrow> int \<Rightarrow> int \<Rightarrow> int" where
  "x2Row w x1 data y x x2 =
     (if x > x1 then
        (if x > x2 \<and> alphaTest data (y * w + x) then x else x2Row w x1 data y (x - 1) x2)
      else x2)"
  by pat_completeness auto
termination
  by (relation "measure (\<lambda>(w, x1, data, y, x, x2). nat (x - x1))") auto

function x2Loop :: "int \<Rightarrow> int \<Rightarrow> int \<Rightarrow> 32 word list \<Rightarrow> int \<Rightarrow> int \<Rightarrow> int" where
  "x2Loop w y2 x1 data y x2 =
     (if y < y2 then x2Loop w y2 x1 data (y + 1) (x2Row w x1 data y (w - 1) x2) else x2)"
  by pat_completeness auto
termination
  by (relation "measure (\<lambda>(w, y2, x1, data, y, x2). nat (y2 - y))") auto

declare y1Loop.simps [simp del] y2Loop.simps [simp del] x1Row.simps [simp del]
  x1Loop.simps [simp del] x2Row.simps [simp del] x2Loop.simps [simp del]

record bbox =
  x1 :: int
  x2 :: int
  y1 :: int
  y2 :: int
  width :: int
  height :: int

text \<open>
  The four sweeps on the array \<open>data\<close>, with the two defaults
  \<^verbatim>\<open>y1 ??= h - 1\<close> and \<^verbatim>\<open>y2 ??= y1 + 1\<close> and the seeds \<open>x1 = w\<close>, \<open>x2 = 0\<close>.
\<close>

definition scanData :: "int \<Rightarrow> int \<Rightarrow> 32 word list \<Rightarrow> bbox" where
  "scanData w h data =
     (let ya = (case y1Loop w h data 0 None of None \<Rightarrow> h - 1 | Some v \<Rightarrow> v);
          yb = (case y2Loop w ya data (h - 1) None of None \<Rightarrow> ya + 1 | Some v \<Rightarrow> v);
          xa = x1Loop w yb data ya w;
          xb = x2Loop w yb xa data ya 0
      in \<lparr>x1 = xa, x2 = xb, y1 = ya, y2 = yb, width = xb - xa, height = yb - ya\<rparr>)"

definition scanPixels :: "int \<Rightarrow> int \<Rightarrow> 8 word list \<Rightarrow> bbox" where
  "scanPixels w h imageData = scanData w h (Uint32Array imageData)"

text \<open>
  For comparison with the code, the rectangle the specification describes: the pixels
  whose alpha byte (the fourth byte of each pixel) is not zero, as (column, row) pairs in
  row-major order, and the minimum column, minimum row, maximum column and maximum row
  over them.
\<close>

definition opaquePixels :: "int \<Rightarrow> int \<Rightarrow> 8 word list \<Rightarrow> (int \<times> int) list" where
  "opaquePixels w h imageData =
     [(x, y). y \<leftarrow> [0..h - 1], x \<leftarrow> [0..w - 1], imageData ! nat (4 * (y * w + x) + 3) \<noteq> 0]"

definition minimalRect :: "(int \<times> int) list \<Rightarrow> int \<times> int \<times> int \<times> int" where
  "minimalRect ps =
     (Min (set (map fst ps)), Min (set (map snd ps)),
      Max (set (map fst ps)), Max (set (map snd ps)))"

section \<open>Alignment: alignObject\<close>

text \<open>
  \<^verbatim>\<open>alignObject(canvas, activeSelection, pos)\<close> of \<^verbatim>\<open>lib/utils.ts\<close> reads the canvas size,
  the object's position, the object's bounding rectangle
  (\<^verbatim>\<open>activeSelection.getBoundingRect()\<close>) and the awaited result of \<^verbatim>\<open>getRealBBox\<close>,
  and, once that promise has resolved, sets one coordinate of the object.  The bounding
  rectangle and the result of \<^verbatim>\<open>getRealBBox\<close> come from the canvas library and the
  browser; they are the arguments \<open>bound\<close> and \<open>realBound\<close> here.  The calls that follow
  the assignment (\<^verbatim>\<open>setCoords\<close>, \<^verbatim>\<open>renderAll\<close>, \<^verbatim>\<open>fire\<close>) belong to the canvas library
  and are left out.  Numbers are modelled as reals, without the rounding of floating
  point.

  The fields \<open>canvas_width\<close> and \<open>canvas_height\<close> are \<^verbatim>\<open>canvas.width\<close> and
  \<^verbatim>\<open>canvas.height\<close>, \<open>obj_left\<close> and \<open>obj_top\<close> are \<^verbatim>\<open>activeSelection.left\<close> and
  \<^verbatim>\<open>activeSelection.top\<close>, and \<open>rect_left\<close> and \<open>rect_top\<close> are \<^verbatim>\<open>bound.left\<close> and
  \<^verbatim>\<open>bound.top\<close>.
\<close>

record canvas =
  canvas_width :: real
  canvas_height :: real

record fabricObject =
  obj_left :: real
  obj_top :: real

record boundingRect =
  rect_left :: real
  rect_top :: real

definition alignObject ::
  "canvas \<Rightarrow> boundingRect \<Rightarrow> bbox \<Rightarrow> fabricObject \<Rightarrow> string \<Rightarrow> fabricObject" where
  "alignObject cv bound realBound activeSelection pos =
     (if pos = ''left'' then
        activeSelection\<lparr>obj_left :=
          obj_left activeSelection - rect_left bound - of_int (x1 realBound)\<rparr>
      else if pos = ''center-h'' then
        activeSelection\<lparr>obj_left :=
          (obj_left activeSelection - rect_left bound - of_int (x1 realBound))
            + (canvas_width cv / 2) - (of_int (width realBound) / 2)\<rparr>
      else if pos = ''right'' then
        activeSelection\<lparr>obj_left :=
          (obj_left activeSelection - rect_left bound - of_int (x1 realBound))
            + canvas_width cv - of_int (width realBound)\<rparr>
      else if pos = ''top'' then
        activeSelection\<lparr>obj_top :=
          obj_top activeSelection - rect_top bound - of_int (y1 realBound)\<rparr>
      else if pos = ''center-v'' then
        activeSelection\<lparr>obj_top :=
          (obj_top activeSelection - rect_top bound - of_int (y1 realBound))
            + (canvas_height cv / 2) - (of_int (height realBound) / 2)\<rparr>
      else if pos = ''bottom'' then
        activeSelection\<lparr>obj_top :=
          (obj_top activeSelection - rect_top bound - of_int (y1 realBound))
            + (canvas_height cv - of_int (height realBound))\<rparr>
      else activeSelection)"

section \<open>Properties of the undo/redo stack\<close>

lemma pushAll_shape:
  "pushAll s vals =
     (if vals = [] then s else s\<lparr>undoStack := undoStack s @ vals, redoStack := []\<rparr>)"
proof (induction vals arbitrary: s)
  case Nil
  show ?case by (simp add: pushAll_def)
next
  case (Cons v vs)
  have "pushAll s (v # vs) = pushAll (UndoRedoStack_push s v) vs"
    by (simp add: pushAll_def)
  then show ?case
    by (simp add: Cons.IH UndoRedoStack_push_def ActionStack_push_def ActionStack_clear_def)
qed

lemma pushAll_new:
  "vals \<noteq> [] \<Longrightarrow> pushAll UndoRedoStack_new vals = \<lparr>undoStack = vals, redoStack = []\<rparr>"
  by (simp add: pushAll_shape UndoRedoStack_new_def)

lemma undo_step:
  "snd (undo s) =
     (if 1 < length (undoStack s)
      then s\<lparr>undoStack := butlast (undoStack s),
              redoStack := redoStack s @ [last (undoStack s)]\<rparr>
      else s)"
  by (auto simp: undo_def ActionStack_length_def ActionStack_pop_def ActionStack_push_def)

lemma redo_step:
  "snd (redo s) =
     (if redoStack s \<noteq> []
      then s\<lparr>undoStack := undoStack s @ [last (redoStack s)],
              redoStack := butlast (redoStack s)\<rparr>
      else s)"
  by (auto simp: redo_def ActionStack_isEmpty_def ActionStack_pop_def ActionStack_push_def)

lemma undoN_Suc: "undoN (Suc k) s = snd (undo (undoN k s))"
  by (simp add: undoN_def)

lemma redoN_Suc: "redoN (Suc k) s = snd (redo (redoN k s))"
  by (simp add: redoN_def)

lemma undo_keeps_floor:
  "undoStack s \<noteq> [] \<Longrightarrow>
     undoStack (snd (undo s)) \<noteq> [] \<and> set (undoStack (snd (undo s))) \<subseteq> set (undoStack s)"
proof (cases "1 < length (undoStack s)")
  case True
  then have "butlast (undoStack s) \<noteq> []"
    by (cases "undoStack s" rule: rev_cases) auto
  moreover have "set (butlast (undoStack s)) \<subseteq> set (undoStack s)"
    by (auto dest: in_set_butlastD)
  ultimately show ?thesis using True by (simp add: undo_step)
next
  case False
  assume "undoStack s \<noteq> []"
  with False show ?thesis by (simp add: undo_step)
qed

lemma undoN_keeps_floor:
  "undoStack s \<noteq> [] \<Longrightarrow>
     undoStack (undoN k s) \<noteq> [] \<and> set (undoStack (undoN k s)) \<subseteq> set (undoStack s)"
proof (induction k)
  case 0
  then show ?case by (simp add: undoN_def)
next
  case (Suc k)
  from Suc.IH [OF Suc.prems]
  have ih: "undoStack (undoN k s) \<noteq> []" "set (undoStack (undoN k s)) \<subseteq> set (undoStack s)"
    by simp_all
  from undo_keeps_floor [OF ih(1)] ih(2) show ?case
    by (auto simp: undoN_Suc)
qed

text \<open>
  Claim C1 (floor invariant).  Starting from an empty UndoRedoStack, after pushing one or
  more defined snapshots and then calling \<^verbatim>\<open>undo()\<close> any number \<open>k\<close> of times,
  \<^verbatim>\<open>latest()\<close> is not \<^verbatim>\<open>undefined\<close> and the undo stack holds at least one entry.
  As \<open>k\<close> is arbitrary this covers every intermediate state.
\<close>

theorem floor_invariant:
  assumes "ss \<noteq> []"
  shows "latest (undoN k (pushAll UndoRedoStack_new (map Val ss))) \<noteq> Undefined
       \<and> 1 \<le> ActionStack_length (undoStack (undoN k (pushAll UndoRedoStack_new (map Val ss))))"
proof -
  let ?s = "pushAll UndoRedoStack_new (map Val ss)"
  from assms have s: "?s = \<lparr>undoStack = map Val ss, redoStack = []\<rparr>"
    by (simp add: pushAll_new)
  then have "undoStack ?s \<noteq> []" using assms by simp
  from undoN_keeps_floor [OF this, of k]
  have ne: "undoStack (undoN k ?s) \<noteq> []"
    and sub: "set (undoStack (undoN k ?s)) \<subseteq> set (undoStack ?s)"
    by simp_all
  from ne have "last (undoStack (undoN k ?s)) \<in> set (undoStack (undoN k ?s))"
    by simp
  with sub s have "last (undoStack (undoN k ?s)) \<in> Val ` set ss"
    by auto
  then have "last (undoStack (undoN k ?s)) \<noteq> Undefined"
    by auto
  with ne show ?thesis
    by (simp add: latest_def ActionStack_current_def ActionStack_length_def Suc_le_eq)
qed

theorem floor_invariant_witness:
  "latest (undoN 5 (pushAll UndoRedoStack_new (map Val [''A'', ''B'']))) \<noteq> Undefined
   \<and> 1 \<le> ActionStack_length (undoStack (undoN 5 (pushAll UndoRedoStack_new (map Val [''A'', ''B'']))))
   \<and> undoN 5 (pushAll UndoRedoStack_new (map Val [''A'', ''B''])) = \<lparr>undoStack = [Val ''A''], redoStack = [Val ''B'']\<rparr>"
proof -
  have ne: "[''A'', ''B''] \<noteq> []" by simp
  have "undoN 5 (pushAll UndoRedoStack_new (map Val [''A'', ''B''])) = \<lparr>undoStack = [Val ''A''], redoStack = [Val ''B'']\<rparr>"
    by (simp add: pushAll_new undoN_def undo_step numeral_nat)
  with floor_invariant [OF ne, of 5] show ?thesis by simp
qed

lemma undoN_shape:
  "k < length vs \<Longrightarrow>
     undoN k \<lparr>undoStack = vs, redoStack = rs\<rparr> =
       \<lparr>undoStack = take (length vs - k) vs,
        redoStack = rs @ rev (drop (length vs - k) vs)\<rparr>"
proof (induction k)
  case 0
  show ?case by (simp add: undoN_def)
next
  case (Suc k)
  let ?m = "length vs - Suc k"
  from Suc.prems have m: "Suc ?m = length vs - k" "?m < length vs" "0 < ?m"
    by simp_all
  from Suc have ih: "undoN k \<lparr>undoStack = vs, redoStack = rs\<rparr> =
       \<lparr>undoStack = take (Suc ?m) vs, redoStack = rs @ rev (drop (Suc ?m) vs)\<rparr>"
    by (simp add: m(1))
  have t: "take (Suc ?m) vs = take ?m vs @ [vs ! ?m]"
    using m(2) by (rule take_Suc_conv_app_nth)
  have d: "drop ?m vs = vs ! ?m # drop (Suc ?m) vs"
    using m(2) by (rule Cons_nth_drop_Suc [symmetric])
  have len: "1 < length (take (Suc ?m) vs)"
    using m by simp
  show ?case
    unfolding undoN_Suc ih undo_step
    using len by (simp add: t d del: take_Suc_conv_app_nth)
qed

lemma redoN_shape:
  "k \<le> length rs \<Longrightarrow>
     redoN k \<lparr>undoStack = us, redoStack = rs\<rparr> =
       \<lparr>undoStack = us @ rev (drop (length rs - k) rs),
        redoStack = take (length rs - k) rs\<rparr>"
proof (induction k)
  case 0
  show ?case by (simp add: redoN_def)
next
  case (Suc k)
  let ?m = "length rs - Suc k"
  from Suc.prems have m: "Suc ?m = length rs - k" "?m < length rs"
    by simp_all
  from Suc have ih: "redoN k \<lparr>undoStack = us, redoStack = rs\<rparr> =
       \<lparr>undoStack = us @ rev (drop (Suc ?m) rs), redoStack = take (Suc ?m) rs\<rparr>"
    by (simp add: m(1))
  have t: "take (Suc ?m) rs = take ?m rs @ [rs ! ?m]"
    using m(2) by (rule take_Suc_conv_app_nth)
  have d: "drop ?m rs = rs ! ?m # drop (Suc ?m) rs"
    using m(2) by (rule Cons_nth_drop_Suc [symmetric])
  show ?case
    unfolding redoN_Suc ih redo_step
    by (simp add: t d del: take_Suc_conv_app_nth)
qed

lemma redoN_undoN:
  assumes "k < length vs"
  shows "redoN k (undoN k \<lparr>undoStack = vs, redoStack = []\<rparr>) = \<lparr>undoStack = vs, redoStack = []\<rparr>"
proof -
  have "k \<le> length (rev (drop (length vs - k) vs))" using assms by simp
  from redoN_shape [OF this, of "take (length vs - k) vs"] assms show ?thesis
    by (simp add: undoN_shape)
qed

text \<open>
  Claim C2 (undo/redo inverse law).  For values \<open>s1..sn\<close> with \<open>n \<ge> 2\<close> pushed in order
  onto a fresh UndoRedoStack, one \<^verbatim>\<open>undo()\<close> followed by one \<^verbatim>\<open>redo()\<close> leaves
  \<^verbatim>\<open>latest()\<close> equal to \<open>sn\<close>, and so do \<open>n - 1\<close> calls of \<^verbatim>\<open>undo()\<close> followed by
  \<open>n - 1\<close> calls of \<^verbatim>\<open>redo()\<close>.
\<close>

theorem undo_redo_inverse:
  assumes "2 \<le> length vals"
  shows "latest (snd (redo (snd (undo (pushAll UndoRedoStack_new vals))))) = last vals
       \<and> latest (redoN (length vals - 1) (undoN (length vals - 1) (pushAll UndoRedoStack_new vals)))
           = last vals"
proof -
  from assms have ne: "vals \<noteq> []" by auto
  then have s: "pushAll UndoRedoStack_new vals = \<lparr>undoStack = vals, redoStack = []\<rparr>"
    by (rule pushAll_new)
  have l: "latest \<lparr>undoStack = vals, redoStack = []\<rparr> = last vals"
    using ne by (simp add: latest_def ActionStack_current_def)
  have one: "snd (redo (snd (undo \<lparr>undoStack = vals, redoStack = []\<rparr>)))
      = redoN 1 (undoN 1 \<lparr>undoStack = vals, redoStack = []\<rparr>)"
    by (simp add: redoN_def undoN_def)
  have "1 < length vals" "length vals - 1 < length vals" using assms by simp_all
  then show ?thesis
    unfolding s one by (simp add: redoN_undoN l)
qed

theorem undo_redo_inverse_witness:
  "(2::nat) \<le> length [Val ''A'', Val ''B'', Val ''C'']
   \<and> latest (snd (redo (snd (undo (pushAll UndoRedoStack_new [Val ''A'', Val ''B'', Val ''C''])))))
       = Val ''C''
   \<and> latest (redoN 2 (undoN 2 (pushAll UndoRedoStack_new [Val ''A'', Val ''B'', Val ''C''])))
       = Val ''C''"
proof -
  have h: "2 \<le> length [Val ''A'', Val ''B'', Val ''C'']" by simp
  from undo_redo_inverse [OF h] show ?thesis by (simp add: numeral_2_eq_2)
qed

text \<open>
  Claim C3 (redo-discard law).  For all values \<open>a\<close>, \<open>b\<close>, \<open>c\<close>, after
  \<^verbatim>\<open>push(a); push(b); undo(); push(c)\<close> on a fresh UndoRedoStack the redo stack is empty and
  \<^verbatim>\<open>redo()\<close> returns \<^verbatim>\<open>undefined\<close> and leaves both stacks as they were.
\<close>

theorem redo_discard:
  "redo (UndoRedoStack_push (snd (undo (UndoRedoStack_push
           (UndoRedoStack_push UndoRedoStack_new a) b))) c)
     = (Undefined, UndoRedoStack_push (snd (undo (UndoRedoStack_push
           (UndoRedoStack_push UndoRedoStack_new a) b))) c)
   \<and> redoStack (UndoRedoStack_push (snd (undo (UndoRedoStack_push
           (UndoRedoStack_push UndoRedoStack_new a) b))) c) = []"
  by (simp add: redo_def UndoRedoStack_push_def ActionStack_clear_def ActionStack_isEmpty_def)

text \<open>
  Claim C4 (end-to-end scenario).  On a fresh UndoRedoStack, after pushing \<open>A\<close>, \<open>B\<close>, \<open>C\<close>:
  \<^verbatim>\<open>undo()\<close> returns \<open>B\<close>, a second \<^verbatim>\<open>undo()\<close> returns \<open>A\<close>, a third returns
  \<^verbatim>\<open>undefined\<close> and changes nothing (the floor), \<^verbatim>\<open>redo()\<close> returns \<open>B\<close>, and after
  \<^verbatim>\<open>push("D")\<close> a further \<^verbatim>\<open>redo()\<close> returns \<^verbatim>\<open>undefined\<close> and changes nothing.
\<close>

theorem scenario_ABC:
  "(let s0 = pushAll UndoRedoStack_new [Val ''A'', Val ''B'', Val ''C''];
        (r1, s1) = undo s0;
        (r2, s2) = undo s1;
        (r3, s3) = undo s2;
        (r4, s4) = redo s3;
        s5 = UndoRedoStack_push s4 (Val ''D'');
        (r6, s6) = redo s5
    in r1 = Val ''B'' \<and> r2 = Val ''A'' \<and> r3 = Undefined \<and> s3 = s2
       \<and> r4 = Val ''B'' \<and> r6 = Undefined \<and> s6 = s5)"
  by (simp add: pushAll_def UndoRedoStack_new_def UndoRedoStack_push_def undo_def redo_def
      ActionStack_push_def ActionStack_pop_def ActionStack_clear_def ActionStack_current_def
      ActionStack_length_def ActionStack_isEmpty_def)

section \<open>Properties of getValues\<close>

text \<open>
  Claim C9 (copy isolation).  For every ActionStack, the array returned by
  \<^verbatim>\<open>getValues()\<close> is a new array (its address \<open>b\<close> differs from the address \<open>a\<close> of the
  stack's own array) with the same elements, and however the caller mutates it, the
  stack's array is unchanged: \<^verbatim>\<open>current()\<close> and \<^verbatim>\<open>pop()\<close> return what they would have
  returned, and \<^verbatim>\<open>pop()\<close> commutes with the mutation, so that later calls are unaffected
  as well.
\<close>

theorem getValues_copy_isolated:
  assumes "a < length st"
  shows "(let (b, st1) = ActionStack_getValues st a;
              st2 = mutate st1 b f
          in b \<noteq> a \<and> st1 ! b = st ! a \<and> st2 ! a = st ! a
             \<and> ActionStack_current_at st2 a = ActionStack_current_at st a
             \<and> fst (ActionStack_pop_at st2 a) = fst (ActionStack_pop_at st a)
             \<and> snd (ActionStack_pop_at st2 a) = mutate (snd (ActionStack_pop_at st1 a)) b f)"
  using assms
  by (auto simp: ActionStack_getValues_def mutate_def ActionStack_current_at_def
      ActionStack_pop_at_def nth_append list_update_append split: prod.splits)

theorem getValues_copy_isolated_witness:
  "(0::nat) < length [[Val ''A'', Val ''B'']]
   \<and> (let (b, st1) = ActionStack_getValues [[Val ''A'', Val ''B'']] 0;
              st2 = mutate st1 b (\<lambda>xs. [])
          in b = 1 \<and> st2 = [[Val ''A'', Val ''B''], []]
             \<and> ActionStack_current_at st2 0 = Val ''B''
             \<and> fst (ActionStack_pop_at st2 0) = Val ''B'')"
proof -
  have h: "(0::nat) < length [[Val ''A'', Val ''B'']]" by simp
  from getValues_copy_isolated [OF h, of "\<lambda>xs. []"] show ?thesis
    by (simp add: ActionStack_getValues_def mutate_def ActionStack_current_at_def
      ActionStack_pop_at_def ActionStack_current_def ActionStack_pop_def)
qed

section \<open>Properties of scanPixels\<close>

subsection \<open>The alpha test on the copied bytes\<close>

text \<open>
  Every element of \<open>Uint32Array imageData\<close> is a byte, at most 255, so its bits 24 to 31
  are zero and the test \<^verbatim>\<open>data[i] & 0xff000000\<close> never succeeds.
\<close>

lemma byte_has_no_alpha: "(ucast (b :: 8 word) :: 32 word) AND 0xff000000 = 0"
proof -
  have m: "(0xff000000 :: 32 word) = push_bit 24 0xff" by simp
  have "(ucast b :: 32 word) AND push_bit 24 0xff = 0"
  proof (rule bit_word_eqI)
    fix n
    have "\<not> (bit (ucast b :: 32 word) n \<and> bit (push_bit 24 (0xff :: 32 word)) n)"
    proof
      assume a: "bit (ucast b :: 32 word) n \<and> bit (push_bit 24 (0xff :: 32 word)) n"
      then have "bit b n" by (simp add: bit_ucast_iff)
      then have "n < 8" by (auto dest: bit_imp_le_length)
      moreover from a have "24 \<le> n" unfolding bit_push_bit_iff by blast
      ultimately show False by simp
    qed
    then show "bit (ucast b AND push_bit 24 (0xff :: 32 word)) n = bit (0 :: 32 word) n"
      unfolding bit_and_iff by simp
  qed
  with m show ?thesis by simp
qed

lemma alphaTest_Uint32Array: "\<not> alphaTest (Uint32Array imageData) i"
  by (auto simp: alphaTest_def Uint32Array_def byte_has_no_alpha nat_less_iff)

subsection \<open>A scan in which no test succeeds\<close>

text \<open>
  When no test succeeds, every sweep leaves its variable as it was, and the result is
  made of the defaults and the seeds alone.  By the previous lemma this is the result of
  \<open>scanPixels\<close> on every image.
\<close>

lemma rowHit_no_alpha: "(\<And>i. \<not> alphaTest data i) \<Longrightarrow> \<not> rowHit w data y x"
  by (induction w data y x rule: rowHit.induct) (simp add: rowHit.simps)

lemma y1Loop_no_alpha: "(\<And>i. \<not> alphaTest data i) \<Longrightarrow> y1Loop w h data y v = v"
  by (induction w h data y v rule: y1Loop.induct) (simp add: y1Loop.simps rowHit_no_alpha)

lemma y2Loop_no_alpha: "(\<And>i. \<not> alphaTest data i) \<Longrightarrow> y2Loop w ya data y v = v"
  by (induction w ya data y v rule: y2Loop.induct) (simp add: y2Loop.simps rowHit_no_alpha)

lemma x1Row_no_alpha: "(\<And>i. \<not> alphaTest data i) \<Longrightarrow> x1Row w data y x xa = xa"
  by (induction w data y x xa rule: x1Row.induct) (simp add: x1Row.simps)

lemma x1Loop_no_alpha: "(\<And>i. \<not> alphaTest data i) \<Longrightarrow> x1Loop w yb data y xa = xa"
  by (induction w yb data y xa rule: x1Loop.induct) (simp add: x1Loop.simps x1Row_no_alpha)

lemma x2Row_no_alpha: "(\<And>i. \<not> alphaTest data i) \<Longrightarrow> x2Row w xa data y x xb = xb"
  by (induction w xa data y x xb rule: x2Row.induct) (simp add: x2Row.simps)

lemma x2Loop_no_alpha: "(\<And>i. \<not> alphaTest data i) \<Longrightarrow> x2Loop w yb xa data y xb = xb"
  by (induction w yb xa data y xb rule: x2Loop.induct) (simp add: x2Loop.simps x2Row_no_alpha)

lemma scanData_no_alpha:
  assumes "\<And>i. \<not> alphaTest data i"
  shows "scanData w h data = \<lparr>x1 = w, x2 = 0, y1 = h - 1, y2 = h, width = - w, height = 1\<rparr>"
  by (simp add: scanData_def y1Loop_no_alpha [OF assms] y2Loop_no_alpha [OF assms]
      x1Loop_no_alpha [OF assms] x2Loop_no_alpha [OF assms])

lemma scanPixels_fallback:
  "scanPixels w h imageData = \<lparr>x1 = w, x2 = 0, y1 = h - 1, y2 = h, width = - w, height = 1\<rparr>"
  unfolding scanPixels_def by (rule scanData_no_alpha) (rule alphaTest_Uint32Array)

lemma scanData_transparent:
  assumes "\<forall>v \<in> set data. v AND 0xff000000 = 0"
  shows "scanData w h data = \<lparr>x1 = w, x2 = 0, y1 = h - 1, y2 = h, width = - w, height = 1\<rparr>"
proof (rule scanData_no_alpha)
  fix i
  show "\<not> alphaTest data i"
    using assms by (auto simp: alphaTest_def nat_less_iff)
qed

text \<open>
  Claim C6 (degenerate buffer).  For a 10 by 10 image (400 bytes) in which the alpha byte
  of every pixel is zero, \<open>scanPixels\<close> returns \<open>y1 = 9\<close>, \<open>y2 = 10\<close> and \<open>x1 = 10\<close>
  (with \<open>x2 = 0\<close>, width \<open>-10\<close> and height 1).  The function is total and has no failing
  branch.
\<close>

theorem transparent_10x10_fallback:
  assumes "length imageData = 400" and "\<forall>p<100. imageData ! (4 * p + 3) = 0"
  shows "scanPixels 10 10 imageData
           = \<lparr>x1 = 10, x2 = 0, y1 = 9, y2 = 10, width = - 10, height = 1\<rparr>"
  by (simp add: scanPixels_fallback)

theorem transparent_10x10_fallback_witness:
  "length (replicate 400 (0 :: 8 word)) = 400
   \<and> list_all (\<lambda>p. replicate 400 (0 :: 8 word) ! (4 * p + 3) = 0) [0..<100]
   \<and> scanPixels 10 10 (replicate 400 0)
           = \<lparr>x1 = 10, x2 = 0, y1 = 9, y2 = 10, width = - 10, height = 1\<rparr>"
proof -
  have a: "length (replicate 400 (0 :: 8 word)) = 400" by simp
  have b: "\<forall>p<100. replicate 400 (0 :: 8 word) ! (4 * p + 3) = 0" by simp
  from a b transparent_10x10_fallback [OF a b] show ?thesis
    by (simp add: list_all_iff)
qed

text \<open>The same on an array of a hundred 32-bit pixels whose top byte is zero.\<close>

lemma scanData_transparent_10x10:
  "length data = 100 \<Longrightarrow> \<forall>v \<in> set data. v AND 0xff000000 = 0 \<Longrightarrow>
     scanData 10 10 data = \<lparr>x1 = 10, x2 = 0, y1 = 9, y2 = 10, width = - 10, height = 1\<rparr>"
  by (simp add: scanData_transparent)

subsection \<open>A fully opaque image\<close>

text \<open>
  Claim C7 (fully opaque 4 by 4 image).  On the 64 bytes of a 4 by 4 image whose bytes
  are all 255, so that every pixel has alpha 255, \<open>scanPixels\<close> returns the defaults
  \<open>x1 = 4\<close>, \<open>x2 = 0\<close>, \<open>y1 = 3\<close>, \<open>y2 = 4\<close>, width \<open>-4\<close>, height 1, and not the
  rectangle \<open>x1 = 0\<close>, \<open>y1 = 0\<close>, \<open>x2 = 3\<close>, \<open>y2 = 3\<close>, width 3, height 3.
\<close>

theorem opaque_4x4_scanPixels:
  "scanPixels 4 4 (replicate 64 255)
     = \<lparr>x1 = 4, x2 = 0, y1 = 3, y2 = 4, width = - 4, height = 1\<rparr>
   \<and> scanPixels 4 4 (replicate 64 255)
     \<noteq> \<lparr>x1 = 0, x2 = 3, y1 = 0, y2 = 3, width = 3, height = 3\<rparr>"
  by (simp add: scanPixels_fallback)

text \<open>
  The four sweeps themselves do give that rectangle when the array holds one 32-bit
  word per pixel with the alpha in the top byte; the difference comes from
  \<open>Uint32Array\<close> alone.
\<close>

lemma scanData_opaque_4x4:
  assumes "\<And>i. 0 \<le> i \<Longrightarrow> i < 16 \<Longrightarrow> alphaTest data i"
  shows "scanData 4 4 data = \<lparr>x1 = 0, x2 = 3, y1 = 0, y2 = 3, width = 3, height = 3\<rparr>"
  by (simp add: scanData_def assms rowHit.simps y1Loop.simps y2Loop.simps x1Row.simps
      x1Loop.simps x2Row.simps x2Loop.simps)

lemma scanData_opaque_4x4_words:
  assumes "length data = 16" "\<forall>v \<in> set data. v AND 0xff000000 \<noteq> 0"
  shows "scanData 4 4 data = \<lparr>x1 = 0, x2 = 3, y1 = 0, y2 = 3, width = 3, height = 3\<rparr>"
proof (rule scanData_opaque_4x4)
  fix i :: int
  assume "0 \<le> i" "i < 16"
  with assms show "alphaTest data i" by (simp add: alphaTest_def nat_less_iff)
qed

subsection \<open>The sweeps on an array with a single opaque pixel\<close>

text \<open>
  On an array of 32-bit pixels in which the test succeeds at column \<open>c\<close> of row \<open>r\<close>
  and nowhere else: the \<open>y1\<close> sweep finds \<open>r\<close>, the \<open>y2\<close> sweep finds nothing and
  \<open>y2\<close> becomes \<open>r + 1\<close>, the \<open>x1\<close> sweep finds \<open>c\<close>, and the \<open>x2\<close> sweep looks only
  at columns greater than \<open>c\<close>, so \<open>x2\<close> keeps its seed 0 and the width is \<open>- c\<close>.
\<close>

lemma rowHit_iff:
  "rowHit w data y x \<longleftrightarrow> (\<exists>k. x \<le> k \<and> k < w \<and> alphaTest data (y * w + k))"
proof (induction w data y x rule: rowHit.induct)
  case (1 w data y x)
  show ?case
  proof (cases "x < w")
    case False
    then show ?thesis by (auto simp: rowHit.simps [of w data y x])
  next
    case True
    show ?thesis
    proof (cases "alphaTest data (y * w + x)")
      case hit: True
      with True show ?thesis by (auto simp: rowHit.simps [of w data y x])
    next
      case miss: False
      have "(\<exists>k. x \<le> k \<and> k < w \<and> alphaTest data (y * w + k))
            \<longleftrightarrow> (\<exists>k. x + 1 \<le> k \<and> k < w \<and> alphaTest data (y * w + k))"
      proof
        assume "\<exists>k. x \<le> k \<and> k < w \<and> alphaTest data (y * w + k)"
        then obtain k where k: "x \<le> k" "k < w" "alphaTest data (y * w + k)" by blast
        with miss have "k \<noteq> x" by auto
        with k have "x + 1 \<le> k" by simp
        with k show "\<exists>k. x + 1 \<le> k \<and> k < w \<and> alphaTest data (y * w + k)" by blast
      next
        assume "\<exists>k. x + 1 \<le> k \<and> k < w \<and> alphaTest data (y * w + k)"
        then obtain k where "x + 1 \<le> k" "k < w" "alphaTest data (y * w + k)" by blast
        then have "x \<le> k \<and> k < w \<and> alphaTest data (y * w + k)" by simp
        then show "\<exists>k. x \<le> k \<and> k < w \<and> alphaTest data (y * w + k)" ..
      qed
      with "1.IH" [OF True miss] True miss show ?thesis
        by (simp add: rowHit.simps [of w data y x])
    qed
  qed
qed

lemma same_cell:
  fixes w :: int
  assumes "y * w + k = r * w + c" "0 \<le> k" "k < w" "0 \<le> c" "c < w"
  shows "y = r \<and> k = c"
proof -
  from assms have "w \<noteq> 0" by auto
  with assms(2,3) have a: "(y * w + k) div w = y"
    by (simp add: div_mult_self3 div_pos_pos_trivial)
  from \<open>w \<noteq> 0\<close> assms(4,5) have b: "(r * w + c) div w = r"
    by (simp add: div_mult_self3 div_pos_pos_trivial)
  have "y = (y * w + k) div w" by (simp only: a)
  also have "\<dots> = (r * w + c) div w" by (simp only: assms(1))
  also have "\<dots> = r" by (simp only: b)
  finally have "y = r" .
  with assms(1) show ?thesis by simp
qed

lemma single_rowHit:
  assumes only: "\<And>i. alphaTest data i \<longleftrightarrow> i = r * w + c" and c: "0 \<le> c" "c < w"
  shows "rowHit w data y 0 \<longleftrightarrow> y = r"
proof
  assume "rowHit w data y 0"
  then obtain k where "0 \<le> k" "k < w" "y * w + k = r * w + c"
    by (auto simp: rowHit_iff only)
  with c same_cell [of y w k r c] show "y = r" by simp
next
  assume "y = r"
  with c show "rowHit w data y 0" by (auto simp: rowHit_iff only)
qed

lemma y1Loop_finds_row:
  assumes rows: "\<And>y. rowHit w data y 0 \<longleftrightarrow> y = r"
  shows "y \<le> r \<Longrightarrow> r < h \<Longrightarrow> y1Loop w h data y v = Some r"
  using rows
proof (induction w h data y v rule: y1Loop.induct)
  case (1 w h data y v)
  from "1.prems" have yh: "y < h" by simp
  show ?case
  proof (cases "y = r")
    case True
    with "1.prems" yh have "y1Loop w h data y v = y1Loop w h data (h + 1) (Some r)"
      by (subst y1Loop.simps) simp
    then show ?thesis by (simp add: y1Loop.simps [of w h data "h + 1"])
  next
    case False
    with "1.prems" have miss: "\<not> rowHit w data y 0" and le: "y + 1 \<le> r" by simp_all
    from "1.IH"(2) [OF yh miss le "1.prems"(2)] "1.prems"(3)
    have "y1Loop w h data (y + 1) v = Some r" by simp
    with yh miss show ?thesis by (simp add: y1Loop.simps [of w h data y v])
  qed
qed

lemma y2Loop_no_hit_above:
  "(\<And>y. ya < y \<Longrightarrow> \<not> rowHit w data y 0) \<Longrightarrow> y2Loop w ya data y v = v"
proof (induction w ya data y v rule: y2Loop.induct)
  case (1 w ya data y v)
  show ?case
  proof (cases "ya < y")
    case True
    with "1.prems" have miss: "\<not> rowHit w data y 0" by simp
    from "1.IH"(2) [OF _ miss] True "1.prems" have "y2Loop w ya data (y - 1) v = v" by simp
    with True miss show ?thesis by (simp add: y2Loop.simps [of w ya data y v])
  next
    case False
    then show ?thesis by (simp add: y2Loop.simps [of w ya data y v])
  qed
qed

lemma x1Row_finds_column:
  assumes only: "\<And>i. alphaTest data i \<longleftrightarrow> i = r * w + c"
  shows "x \<le> c \<Longrightarrow> c < w \<Longrightarrow> c < xa \<Longrightarrow> x1Row w data r x xa = c"
  using only
proof (induction w data r x xa rule: x1Row.induct)
  case (1 w data r x xa)
  from "1.prems" have xw: "x < w" by simp
  show ?case
  proof (cases "x = c")
    case True
    with "1.prems" xw show ?thesis by (subst x1Row.simps) simp
  next
    case False
    with "1.prems" have miss: "\<not> (x < xa \<and> alphaTest data (r * w + x))" and le: "x + 1 \<le> c"
      by simp_all
    from "1.IH" [OF xw miss le "1.prems"(2,3)] "1.prems"(4)
    have "x1Row w data r (x + 1) xa = c" by simp
    with xw miss show ?thesis by (auto simp: x1Row.simps [of w data r x xa])
  qed
qed

lemma x2Row_nothing_right:
  assumes only: "\<And>i. alphaTest data i \<longleftrightarrow> i = r * w + c"
  shows "x2Row w c data r x xb = xb"
  using only
proof (induction w c data r x xb rule: x2Row.induct)
  case (1 w c data r x xb)
  show ?case
  proof (cases "c < x")
    case True
    with "1.prems" have miss: "\<not> (xb < x \<and> alphaTest data (r * w + x))" by simp
    from "1.IH" [OF True miss] "1.prems" have "x2Row w c data r (x - 1) xb = xb" by simp
    with True miss show ?thesis by (auto simp: x2Row.simps [of w c data r x xb])
  next
    case False
    then show ?thesis by (simp add: x2Row.simps [of w c data r x xb])
  qed
qed

lemma scanData_single_pixel:
  assumes only: "\<And>i. alphaTest data i \<longleftrightarrow> i = r * w + c"
    and r: "0 \<le> r" "r < h" and c: "0 \<le> c" "c < w"
  shows "scanData w h data =
           \<lparr>x1 = c, x2 = 0, y1 = r, y2 = r + 1, width = - c, height = 1\<rparr>"
proof -
  have rows: "\<And>y. rowHit w data y 0 \<longleftrightarrow> y = r"
    using only c by (rule single_rowHit)
  have ya: "y1Loop w h data 0 None = Some r"
    using rows r by (rule y1Loop_finds_row [where y = 0 and v = None])
  have yb: "y2Loop w r data (h - 1) None = None"
    by (rule y2Loop_no_hit_above) (simp add: rows)
  have xa: "x1Loop w (r + 1) data r w = c"
    using x1Row_finds_column [OF only, of 0 w] c
    by (simp add: x1Loop.simps [of w "r + 1" data r] x1Loop.simps [of w "r + 1" data "r + 1"])
  have xb: "x2Loop w (r + 1) c data r 0 = 0"
    by (simp add: x2Loop.simps [of w "r + 1" c data r] x2Loop.simps [of w "r + 1" c data "r + 1"]
        x2Row_nothing_right [OF only])
  show ?thesis
    by (simp add: scanData_def ya yb xa xb)
qed

subsection \<open>The result against the minimal rectangle\<close>

text \<open>
  Claim C5 (opaque-bounds correctness).  On a 3 by 3 image whose pixels (0, 0) and (2, 2)
  have alpha 255 and all others alpha 0, the minimal rectangle around the opaque pixels
  is \<open>x1 = 0\<close>, \<open>y1 = 0\<close>, \<open>x2 = 2\<close>, \<open>y2 = 2\<close>, and \<open>scanPixels\<close> returns
  \<open>x1 = 3\<close>, \<open>x2 = 0\<close>, \<open>y1 = 2\<close>, \<open>y2 = 3\<close>, width \<open>-3\<close>, height 1.
\<close>

theorem diagonal_3x3_scanPixels:
  "(let imageData = [0, 0, 0, 255,  0, 0, 0, 0,  0, 0, 0, 0,
                     0, 0, 0, 0,    0, 0, 0, 0,  0, 0, 0, 0,
                     0, 0, 0, 0,    0, 0, 0, 0,  0, 0, 0, 255]
    in opaquePixels 3 3 imageData = [(0, 0), (2, 2)]
       \<and> minimalRect (opaquePixels 3 3 imageData) = (0, 0, 2, 2)
       \<and> scanPixels 3 3 imageData
           = \<lparr>x1 = 3, x2 = 0, y1 = 2, y2 = 3, width = - 3, height = 1\<rparr>)"
proof -
  let ?img = "[0, 0, 0, 255,  0, 0, 0, 0,  0, 0, 0, 0,
               0, 0, 0, 0,    0, 0, 0, 0,  0, 0, 0, 0,
               0, 0, 0, 0,    0, 0, 0, 0,  0, 0, 0, 255] :: 8 word list"
  have px: "opaquePixels 3 3 ?img = [(0, 0), (2, 2)]"
    by (simp add: opaquePixels_def upto.simps)
  have mr: "minimalRect [(0, 0), (2, 2)] = (0, 0, 2, 2)"
    by (simp add: minimalRect_def)
  have sc: "scanPixels 3 3 ?img = \<lparr>x1 = 3, x2 = 0, y1 = 2, y2 = 3, width = - 3, height = 1\<rparr>"
    by (simp add: scanPixels_fallback)
  show ?thesis
    unfolding Let_def px mr sc by simp
qed

text \<open>
  On the same image as nine 32-bit pixels the sweeps return \<open>x1 = 0\<close>, \<open>x2 = 0\<close>,
  \<open>y1 = 0\<close>, \<open>y2 = 2\<close>: the \<open>x1\<close> and \<open>x2\<close> sweeps stop before row \<open>y2\<close>, and the pixel
  (2, 2) lies outside the result.
\<close>

lemma scanData_diagonal_3x3:
  "scanData 3 3 [0xff000000, 0, 0,  0, 0, 0,  0, 0, 0xff000000]
     = \<lparr>x1 = 0, x2 = 0, y1 = 0, y2 = 2, width = 0, height = 2\<rparr>"
  by (simp add: scanData_def alphaTest_def rowHit.simps y1Loop.simps y2Loop.simps x1Row.simps
      x1Loop.simps x2Row.simps x2Loop.simps)

text \<open>
  Claim C10 (negative width).  There is an image with an opaque pixel for which the scan
  returns \<open>x2 < x1\<close> and a negative width: for the 2 by 1 image whose only opaque pixel is
  at column 1, \<open>scanPixels\<close> does.  And on the two 32-bit pixels of that image, where the
  test succeeds at column \<open>c = 1\<close> only, the sweeps set \<open>x1\<close> to \<open>c\<close>, leave \<open>x2\<close> at
  its seed 0 and give the width \<open>- c\<close>.
\<close>

theorem negative_width_exists:
  "(\<exists>w h c r imageData.
      1 \<le> c \<and> c < w \<and> 0 \<le> r \<and> r < h \<and> int (length imageData) = 4 * w * h
      \<and> opaquePixels w h imageData = [(c, r)]
      \<and> x2 (scanPixels w h imageData) < x1 (scanPixels w h imageData)
      \<and> width (scanPixels w h imageData) < 0)
   \<and> (\<exists>w h c r data.
      1 \<le> c \<and> c < w \<and> 0 \<le> r \<and> r < h \<and> int (length data) = w * h
      \<and> filter (alphaTest data) [0..w * h - 1] = [r * w + c]
      \<and> scanData w h data = \<lparr>x1 = c, x2 = 0, y1 = r, y2 = r + 1, width = - c, height = 1\<rparr>)"
proof
  let ?img = "[0, 0, 0, 0,  0, 0, 0, 255] :: 8 word list"
  have "1 \<le> (1::int) \<and> (1::int) < 2 \<and> 0 \<le> (0::int) \<and> (0::int) < 1
        \<and> int (length ?img) = 4 * 2 * 1
        \<and> opaquePixels 2 1 ?img = [(1, 0)]
        \<and> x2 (scanPixels 2 1 ?img) < x1 (scanPixels 2 1 ?img)
        \<and> width (scanPixels 2 1 ?img) < 0"
    by (simp add: scanPixels_fallback opaquePixels_def upto.simps)
  then show "\<exists>w h c r imageData.
      1 \<le> c \<and> c < w \<and> 0 \<le> r \<and> r < h \<and> int (length imageData) = 4 * w * h
      \<and> opaquePixels w h imageData = [(c, r)]
      \<and> x2 (scanPixels w h imageData) < x1 (scanPixels w h imageData)
      \<and> width (scanPixels w h imageData) < 0"
    by blast
next
  let ?data = "[0, 0xff000000] :: 32 word list"
  have sc: "scanData 2 1 ?data = \<lparr>x1 = 1, x2 = 0, y1 = 0, y2 = 0 + 1, width = - 1, height = 1\<rparr>"
    by (simp add: scanData_def alphaTest_def rowHit.simps y1Loop.simps y2Loop.simps x1Row.simps
      x1Loop.simps x2Row.simps x2Loop.simps)
  have fl: "filter (alphaTest ?data) [0..2 * 1 - 1] = [0 * 2 + 1]"
    by (simp add: alphaTest_def upto.simps)
  have "1 \<le> (1::int) \<and> (1::int) < 2 \<and> 0 \<le> (0::int) \<and> (0::int) < 1
        \<and> int (length ?data) = 2 * 1
        \<and> filter (alphaTest ?data) [0..2 * 1 - 1] = [0 * 2 + 1]
        \<and> scanData 2 1 ?data = \<lparr>x1 = 1, x2 = 0, y1 = 0, y2 = 0 + 1, width = - 1, height = 1\<rparr>"
    using sc fl by simp
  then show "\<exists>w h c r data.
      1 \<le> c \<and> c < w \<and> 0 \<le> r \<and> r < h \<and> int (length data) = w * h
      \<and> filter (alphaTest data) [0..w * h - 1] = [r * w + c]
      \<and> scanData w h data = \<lparr>x1 = c, x2 = 0, y1 = r, y2 = r + 1, width = - c, height = 1\<rparr>"
    by blast
qed

section \<open>Properties of alignObject\<close>

text \<open>
  Claim C8 (horizontal alignment formulas).  For \<open>left\<close> the new left coordinate is the
  current left minus the left of the bounding rectangle minus the opaque \<open>x1\<close>; for
  \<open>center-h\<close> it is that value plus half the canvas width minus half the opaque width.
  With current left 50, bounding left 50 and opaque \<open>x1 = 5\<close> the first is \<open>-5\<close>; with
  canvas width 800 and opaque width 100 the second is 345.
\<close>

theorem align_horizontal:
  "obj_left (alignObject cv bound realBound obj ''left'')
     = obj_left obj - rect_left bound - of_int (x1 realBound)
   \<and> obj_left (alignObject cv bound realBound obj ''center-h'')
     = obj_left (alignObject cv bound realBound obj ''left'')
         + canvas_width cv / 2 - of_int (width realBound) / 2
   \<and> obj_left (alignObject \<lparr>canvas_width = 800, canvas_height = ch\<rparr>
         \<lparr>rect_left = 50, rect_top = bt\<rparr>
         \<lparr>x1 = 5, x2 = 105, y1 = ya, y2 = yb, width = 100, height = hh\<rparr>
         \<lparr>obj_left = 50, obj_top = t\<rparr> ''left'') = - 5
   \<and> obj_left (alignObject \<lparr>canvas_width = 800, canvas_height = ch\<rparr>
         \<lparr>rect_left = 50, rect_top = bt\<rparr>
         \<lparr>x1 = 5, x2 = 105, y1 = ya, y2 = yb, width = 100, height = hh\<rparr>
         \<lparr>obj_left = 50, obj_top = t\<rparr> ''center-h'') = 345"
  by (simp add: alignObject_def)

end
